theory Spec2Isabelle
  imports Main
begin

section \<open>Data model (event\_api/models.py)\<close>

text \<open>
  The three Django models become records, one field per column. The primary key
  \<^verbatim>\<open>id\<close> of each model is written \<open>user_pk\<close>, \<open>event_pk\<close>, \<open>ticket_pk\<close>; the two
  foreign keys of \<^verbatim>\<open>Ticket\<close> are the columns \<^verbatim>\<open>user_id\<close> and \<^verbatim>\<open>event_id\<close>.
  Python integers are unbounded, so the two counters are \<open>int\<close>; the width a
  database backend gives an integer column is not part of the model. The role is the
  string the code compares (\<^verbatim>\<open>role == "Admin"\<close>). The database is the list of rows
  of each table, in insertion order.
\<close>

type_synonym date = "nat \<times> nat \<times> nat"

record user =
  user_pk :: nat
  username :: string
  password :: string
  role :: string
  is_active :: bool
  is_staff :: bool
  is_superuser :: bool

record event =
  event_pk :: nat
  name :: string
  date :: date
  total_tickets :: int
  tickets_sold :: int

record ticket =
  ticket_pk :: nat
  user_id :: nat
  event_id :: nat
  quantity :: int
  purchase_date :: nat

record database =
  users :: "user list"
  events :: "event list"
  tickets :: "ticket list"

definition empty_database :: database where
  "empty_database = \<lparr>users = [], events = [], tickets = []\<rparr>"

text \<open>An auto-incremented primary key: one more than every key of the table.\<close>

definition fresh_pk :: "nat list \<Rightarrow> nat" where
  "fresh_pk pks = Suc (fold max pks 0)"

section \<open>Errors\<close>

text \<open>
  Every exception and every error response of the views is a value. A
  \<^verbatim>\<open>ValidationError\<close> carries its details; \<open>OnlyTicketsLeft n\<close> is the message
  \<^verbatim>\<open>f"Only {event.total_tickets - event.tickets_sold} tickets left."\<close> with the
  interpolated number \<open>n\<close>. The other details are the field errors of the
  serializer fields, tagged with the field's name.
\<close>

datatype detail =
    Required string
  | Invalid string
  | Blank string
  | MaxLength string nat
  | MinValue string int
  | NotUnique string
  | InvalidChoice string
  | OnlyTicketsLeft int

datatype error =
    NotAuthenticated
  | PermissionDenied
  | EventNotFound
  | ValidationError "detail list"
  | DoesNotExist
  | DatabaseError
  | ValueError
  | IntegrityError

text \<open>
  A field of the request body, as the serializer field of the framework reads it:
  absent, present with a value the field's parser rejects, or present with the
  parsed value. For a string field the parsed value is the string with surrounding
  whitespace stripped; for an integer field it is the integer, and a number outside
  the range the database gives an integer column, which is a property of the backend
  and not of this code, counts as rejected. Lengths count the characters of the
  string.
\<close>

datatype 'a form_field = Absent | Malformed | Given 'a

section \<open>Permissions (event\_api/permissions.py)\<close>

text \<open>
  \<^verbatim>\<open>request.user\<close> is the anonymous user or a row of the user table. For a row,
  \<^verbatim>\<open>is_authenticated\<close> is always true; for the anonymous user it is false and the
  \<^verbatim>\<open>and\<close> never reads \<^verbatim>\<open>role\<close>.
\<close>

datatype request_user = AnonymousUser | Authenticated user

fun is_authenticated :: "request_user \<Rightarrow> bool" where
  "is_authenticated AnonymousUser = False"
| "is_authenticated (Authenticated u) = True"

fun role_is :: "request_user \<Rightarrow> string \<Rightarrow> bool" where
  "role_is AnonymousUser r = False"
| "role_is (Authenticated u) r = (role u = r)"

definition AllowAny_has_permission :: "string \<Rightarrow> request_user \<Rightarrow> bool" where
  "AllowAny_has_permission method ru = True"

definition IsAuthenticated_has_permission :: "string \<Rightarrow> request_user \<Rightarrow> bool" where
  "IsAuthenticated_has_permission method ru = is_authenticated ru"

definition IsAdminUser_has_permission :: "string \<Rightarrow> request_user \<Rightarrow> bool" where
  "IsAdminUser_has_permission method ru =
     (if method = ''POST'' then is_authenticated ru \<and> role_is ru ''Admin''
      else is_authenticated ru)"

definition IsRegularUser_has_permission :: "string \<Rightarrow> request_user \<Rightarrow> bool" where
  "IsRegularUser_has_permission method ru = (is_authenticated ru \<and> role_is ru ''User'')"

text \<open>
  The framework's \<^verbatim>\<open>check_permissions\<close>: the permission classes are asked in
  order, and the first refusal ends the request, with \<^verbatim>\<open>NotAuthenticated\<close> for a
  caller without credentials and \<^verbatim>\<open>PermissionDenied\<close> otherwise.
\<close>

fun check_permissions ::
  "(string \<Rightarrow> request_user \<Rightarrow> bool) list \<Rightarrow> string \<Rightarrow> request_user \<Rightarrow> error option" where
  "check_permissions [] method ru = None"
| "check_permissions (p # ps) method ru =
     (if p method ru then check_permissions ps method ru
      else if is_authenticated ru then Some PermissionDenied
      else Some NotAuthenticated)"

section \<open>Ticket purchase (serializers.py, views.py)\<close>

definition Event_objects_get :: "nat \<Rightarrow> database \<Rightarrow> event option" where
  "Event_objects_get pk db = find (\<lambda>r. event_pk r = pk) (events db)"

text \<open>
  \<^verbatim>\<open>event.save(update_fields=['tickets_sold'])\<close> writes the one column of the row
  with the event's key; Django raises \<^verbatim>\<open>DatabaseError\<close> when no row was updated.
\<close>

definition Event_save_tickets_sold :: "event \<Rightarrow> database \<Rightarrow> error + database" where
  "Event_save_tickets_sold ev db =
     (if find (\<lambda>r. event_pk r = event_pk ev) (events db) = None then Inl DatabaseError
      else Inr (db\<lparr>events :=
                  map (\<lambda>r. if event_pk r = event_pk ev
                           then r\<lparr>tickets_sold := tickets_sold ev\<rparr> else r)
                      (events db)\<rparr>))"

definition Ticket_objects_create ::
  "nat \<Rightarrow> user \<Rightarrow> event \<Rightarrow> int \<Rightarrow> database \<Rightarrow> ticket \<times> database" where
  "Ticket_objects_create now usr ev qty db =
     (let t = \<lparr>ticket_pk = fresh_pk (map ticket_pk (tickets db)),
               user_id = user_pk usr, event_id = event_pk ev,
               quantity = qty, purchase_date = now\<rparr>
      in (t, db\<lparr>tickets := tickets db @ [t]\<rparr>))"

text \<open>
  \<^verbatim>\<open>with transaction.atomic():\<close> the body works on the database and either
  returns, and its writes are committed, or raises, and they are rolled back.
\<close>

definition transaction_atomic ::
  "(database \<Rightarrow> error + 'a \<times> database) \<Rightarrow> database \<Rightarrow> (error + 'a) \<times> database" where
  "transaction_atomic body db =
     (case body db of
        Inl e \<Rightarrow> (Inl e, db)
      | Inr (r, db') \<Rightarrow> (Inr r, db'))"

text \<open>\<^verbatim>\<open>quantity = serializers.IntegerField(min_value=1)\<close>, a required field.\<close>

fun quantity_field :: "int form_field \<Rightarrow> detail list + int" where
  "quantity_field Absent = Inl [Required ''quantity'']"
| "quantity_field Malformed = Inl [Invalid ''quantity'']"
| "quantity_field (Given n) = (if n < 1 then Inl [MinValue ''quantity'' 1] else Inr n)"

definition TicketPurchaseSerializer_validate :: "event \<Rightarrow> int \<Rightarrow> error + int" where
  "TicketPurchaseSerializer_validate ev qty =
     (if tickets_sold ev + qty > total_tickets ev
      then Inl (ValidationError [OnlyTicketsLeft (total_tickets ev - tickets_sold ev)])
      else Inr qty)"

text \<open>
  \<^verbatim>\<open>serializer.is_valid(raise_exception=True)\<close>: the fields first, then
  \<^verbatim>\<open>validate\<close> on the validated data.
\<close>

definition TicketPurchaseSerializer_is_valid :: "event \<Rightarrow> int form_field \<Rightarrow> error + int" where
  "TicketPurchaseSerializer_is_valid ev qf =
     (case quantity_field qf of
        Inl ds \<Rightarrow> Inl (ValidationError ds)
      | Inr qty \<Rightarrow> TicketPurchaseSerializer_validate ev qty)"

text \<open>
  \<^verbatim>\<open>TicketPurchaseSerializer.create\<close>. The two assignments
  \<^verbatim>\<open>event.tickets_sold += quantity\<close> of the source are \<open>ev1\<close> and \<open>ev2\<close>.
\<close>

definition TicketPurchaseSerializer_create ::
  "nat \<Rightarrow> user \<Rightarrow> event \<Rightarrow> int \<Rightarrow> database \<Rightarrow> (error + ticket) \<times> database" where
  "TicketPurchaseSerializer_create now usr ev0 qty =
     transaction_atomic (\<lambda>db.
       case Event_objects_get (event_pk ev0) db of
         None \<Rightarrow> Inl DoesNotExist
       | Some ev \<Rightarrow>
           if tickets_sold ev + qty > total_tickets ev
           then Inl (ValidationError [OnlyTicketsLeft (total_tickets ev - tickets_sold ev)])
           else
             let ev1 = ev\<lparr>tickets_sold := tickets_sold ev + qty\<rparr>;
                 ev2 = ev1\<lparr>tickets_sold := tickets_sold ev1 + qty\<rparr>
             in (case Event_save_tickets_sold ev2 db of
                   Inl e \<Rightarrow> Inl e
                 | Inr db1 \<Rightarrow> Inr (Ticket_objects_create now usr ev2 qty db1)))"

text \<open>
  \<^verbatim>\<open>TicketPurchaseAPIView.create\<close>, the handler that runs once the permissions
  have passed: \<open>pk\<close> is the \<^verbatim>\<open>id\<close> of the URL, \<open>qf\<close> the \<^verbatim>\<open>quantity\<close> of the body.
\<close>

definition TicketPurchaseAPIView_create ::
  "nat \<Rightarrow> user \<Rightarrow> nat \<Rightarrow> int form_field \<Rightarrow> database \<Rightarrow> (error + ticket) \<times> database" where
  "TicketPurchaseAPIView_create now usr pk qf db =
     (case Event_objects_get pk db of
        None \<Rightarrow> (Inl EventNotFound, db)
      | Some ev \<Rightarrow>
          (case TicketPurchaseSerializer_is_valid ev qf of
             Inl e \<Rightarrow> (Inl e, db)
           | Inr qty \<Rightarrow> TicketPurchaseSerializer_create now usr ev qty db))"

text \<open>
  A \<^verbatim>\<open>POST\<close> to \<^verbatim>\<open>events/<int:id>/purchase/\<close>:
  \<^verbatim>\<open>permission_classes = [IsAuthenticated, IsRegularUser]\<close>, then the handler.
\<close>

definition TicketPurchaseAPIView_post ::
  "nat \<Rightarrow> request_user \<Rightarrow> nat \<Rightarrow> int form_field \<Rightarrow> database \<Rightarrow> (error + ticket) \<times> database" where
  "TicketPurchaseAPIView_post now ru pk qf db =
     (case check_permissions [IsAuthenticated_has_permission, IsRegularUser_has_permission]
             ''POST'' ru of
        Some e \<Rightarrow> (Inl e, db)
      | None \<Rightarrow>
          (case ru of
             AnonymousUser \<Rightarrow> (Inl NotAuthenticated, db)
           | Authenticated usr \<Rightarrow> TicketPurchaseAPIView_create now usr pk qf db))"

section \<open>Event catalogue (serializers.py, views.py)\<close>

text \<open>
  \<^verbatim>\<open>EventSerializer\<close> is a model serializer with \<^verbatim>\<open>fields = '__all__'\<close>: it reads
  \<^verbatim>\<open>name\<close>, \<^verbatim>\<open>date\<close>, \<^verbatim>\<open>total_tickets\<close> and \<^verbatim>\<open>tickets_sold\<close> from the body
  (\<^verbatim>\<open>id\<close> is read-only). A column with a default is an optional field, the others
  are required; the integer columns carry no bound of the model's. Every field's
  errors are collected.
\<close>

record event_request =
  ev_name :: "string form_field"
  ev_date :: "date form_field"
  ev_total_tickets :: "int form_field"
  ev_tickets_sold :: "int form_field"

fun name_field :: "string form_field \<Rightarrow> detail list + string" where
  "name_field Absent = Inl [Required ''name'']"
| "name_field Malformed = Inl [Invalid ''name'']"
| "name_field (Given s) =
     (if s = [] then Inl [Blank ''name'']
      else if length s > 255 then Inl [MaxLength ''name'' 255]
      else Inr s)"

fun date_field :: "date form_field \<Rightarrow> detail list + date" where
  "date_field Absent = Inl [Required ''date'']"
| "date_field Malformed = Inl [Invalid ''date'']"
| "date_field (Given d) = Inr d"

fun total_tickets_field :: "int form_field \<Rightarrow> detail list + int" where
  "total_tickets_field Absent = Inl [Required ''total_tickets'']"
| "total_tickets_field Malformed = Inl [Invalid ''total_tickets'']"
| "total_tickets_field (Given n) = Inr n"

fun tickets_sold_field :: "int form_field \<Rightarrow> detail list + int option" where
  "tickets_sold_field Absent = Inr None"
| "tickets_sold_field Malformed = Inl [Invalid ''tickets_sold'']"
| "tickets_sold_field (Given n) = Inr (Some n)"

fun field_errors :: "detail list + 'a \<Rightarrow> detail list" where
  "field_errors (Inl ds) = ds"
| "field_errors (Inr v) = []"

definition EventSerializer_is_valid ::
  "event_request \<Rightarrow> error + string \<times> date \<times> int \<times> int option" where
  "EventSerializer_is_valid req =
     (case (name_field (ev_name req), date_field (ev_date req),
            total_tickets_field (ev_total_tickets req),
            tickets_sold_field (ev_tickets_sold req)) of
        (Inr n, Inr d, Inr t, Inr s) \<Rightarrow> Inr (n, d, t, s)
      | (rn, rd, rt, rs) \<Rightarrow>
          Inl (ValidationError
                 (field_errors rn @ field_errors rd @ field_errors rt @ field_errors rs)))"

text \<open>
  \<^verbatim>\<open>Event.objects.create(**validated_data)\<close>: a column the validated data lacks
  takes the model's default, \<^verbatim>\<open>tickets_sold = models.IntegerField(default=0)\<close>.
\<close>

definition Event_objects_create ::
  "string \<Rightarrow> date \<Rightarrow> int \<Rightarrow> int option \<Rightarrow> database \<Rightarrow> event \<times> database" where
  "Event_objects_create n d t s db =
     (let ev = \<lparr>event_pk = fresh_pk (map event_pk (events db)), name = n, date = d,
                total_tickets = t,
                tickets_sold = (case s of None \<Rightarrow> 0 | Some v \<Rightarrow> v)\<rparr>
      in (ev, db\<lparr>events := events db @ [ev]\<rparr>))"

definition EventAPIView_create ::
  "event_request \<Rightarrow> database \<Rightarrow> (error + event) \<times> database" where
  "EventAPIView_create req db =
     (case EventSerializer_is_valid req of
        Inl e \<Rightarrow> (Inl e, db)
      | Inr (n, d, t, s) \<Rightarrow>
          (case Event_objects_create n d t s db of (ev, db') \<Rightarrow> (Inr ev, db')))"

text \<open>
  \<^verbatim>\<open>EventAPIView\<close>: \<^verbatim>\<open>permission_classes = [IsAuthenticated, IsAdminUser]\<close> for
  both methods; \<^verbatim>\<open>POST\<close> creates, \<^verbatim>\<open>GET\<close> lists the whole table.
\<close>

definition EventAPIView_post ::
  "request_user \<Rightarrow> event_request \<Rightarrow> database \<Rightarrow> (error + event) \<times> database" where
  "EventAPIView_post ru req db =
     (case check_permissions [IsAuthenticated_has_permission, IsAdminUser_has_permission]
             ''POST'' ru of
        Some e \<Rightarrow> (Inl e, db)
      | None \<Rightarrow> EventAPIView_create req db)"

definition EventAPIView_get :: "request_user \<Rightarrow> database \<Rightarrow> error + event list" where
  "EventAPIView_get ru db =
     (case check_permissions [IsAuthenticated_has_permission, IsAdminUser_has_permission]
             ''GET'' ru of
        Some e \<Rightarrow> Inl e
      | None \<Rightarrow> Inr (events db))"

section \<open>Registration (models.py, serializers.py, views.py)\<close>

text \<open>
  \<^verbatim>\<open>UserRegisterSerializer\<close>: \<^verbatim>\<open>fields = ['username', 'password', 'role']\<close>. The
  user name is required, not blank, at most 150 characters and unique among the
  stored users; the password is a required, non-blank string; the role is optional
  and one of \<^verbatim>\<open>ROLE_CHOICES\<close>.
\<close>

record register_request =
  reg_username :: "string form_field"
  reg_password :: "string form_field"
  reg_role :: "string form_field"

definition ROLE_CHOICES :: "string list" where
  "ROLE_CHOICES = [''Admin'', ''User'']"

fun username_field :: "database \<Rightarrow> string form_field \<Rightarrow> detail list + string" where
  "username_field db Absent = Inl [Required ''username'']"
| "username_field db Malformed = Inl [Invalid ''username'']"
| "username_field db (Given s) =
     (if s = [] then Inl [Blank ''username'']
      else
        (let errs = (if length s > 150 then [MaxLength ''username'' 150] else [])
                  @ (if s \<in> set (map username (users db)) then [NotUnique ''username''] else [])
         in if errs = [] then Inr s else Inl errs))"

fun password_field :: "string form_field \<Rightarrow> detail list + string" where
  "password_field Absent = Inl [Required ''password'']"
| "password_field Malformed = Inl [Invalid ''password'']"
| "password_field (Given s) = (if s = [] then Inl [Blank ''password''] else Inr s)"

fun role_field :: "string form_field \<Rightarrow> detail list + string option" where
  "role_field Absent = Inr None"
| "role_field Malformed = Inl [InvalidChoice ''role'']"
| "role_field (Given r) =
     (if r \<in> set ROLE_CHOICES then Inr (Some r) else Inl [InvalidChoice ''role''])"

definition UserRegisterSerializer_is_valid ::
  "database \<Rightarrow> register_request \<Rightarrow> error + string \<times> string \<times> string option" where
  "UserRegisterSerializer_is_valid db req =
     (case (username_field db (reg_username req), password_field (reg_password req),
            role_field (reg_role req)) of
        (Inr n, Inr p, Inr r) \<Rightarrow> Inr (n, p, r)
      | (rn, rp, rr) \<Rightarrow>
          Inl (ValidationError (field_errors rn @ field_errors rp @ field_errors rr)))"

text \<open>
  \<^verbatim>\<open>UserManager.create_user\<close>. \<open>hasher\<close> is \<^verbatim>\<open>set_password\<close>'s hash of the
  password, a parameter of the model; the insert fails with \<^verbatim>\<open>IntegrityError\<close>
  on a user name that is taken (\<^verbatim>\<open>unique=True\<close>).
\<close>

definition UserManager_create_user ::
  "(string \<Rightarrow> string) \<Rightarrow> string \<Rightarrow> string \<Rightarrow> string \<Rightarrow> database \<Rightarrow> error + user \<times> database" where
  "UserManager_create_user hasher uname pw r db =
     (if uname = [] then Inl ValueError
      else
        (let u = \<lparr>user_pk = fresh_pk (map user_pk (users db)), username = uname,
                  password = hasher pw, role = r,
                  is_active = True, is_staff = False, is_superuser = False\<rparr>
         in if uname \<in> set (map username (users db)) then Inl IntegrityError
            else Inr (u, db\<lparr>users := users db @ [u]\<rparr>)))"

text \<open>\<^verbatim>\<open>role=validated_data.get('role', 'User')\<close>.\<close>

definition UserRegisterSerializer_create ::
  "(string \<Rightarrow> string) \<Rightarrow> string \<times> string \<times> string option \<Rightarrow> database \<Rightarrow> error + user \<times> database" where
  "UserRegisterSerializer_create hasher validated_data db =
     (case validated_data of
        (n, p, r) \<Rightarrow>
          UserManager_create_user hasher n p (case r of None \<Rightarrow> ''User'' | Some v \<Rightarrow> v) db)"

text \<open>
  \<^verbatim>\<open>RegisterView.create\<close> turns each exception into an error response; the error
  value stands for that response.
\<close>

definition RegisterView_create ::
  "(string \<Rightarrow> string) \<Rightarrow> register_request \<Rightarrow> database \<Rightarrow> (error + user) \<times> database" where
  "RegisterView_create hasher req db =
     (case UserRegisterSerializer_is_valid db req of
        Inl e \<Rightarrow> (Inl e, db)
      | Inr validated_data \<Rightarrow>
          (case UserRegisterSerializer_create hasher validated_data db of
             Inl e \<Rightarrow> (Inl e, db)
           | Inr (u, db') \<Rightarrow> (Inr u, db')))"

text \<open>\<^verbatim>\<open>RegisterView\<close>: \<^verbatim>\<open>permission_classes = [AllowAny]\<close>.\<close>

definition RegisterView_post ::
  "(string \<Rightarrow> string) \<Rightarrow> request_user \<Rightarrow> register_request \<Rightarrow> database
     \<Rightarrow> (error + user) \<times> database" where
  "RegisterView_post hasher ru req db =
     (case check_permissions [AllowAny_has_permission] ''POST'' ru of
        Some e \<Rightarrow> (Inl e, db)
      | None \<Rightarrow> RegisterView_create hasher req db)"

section \<open>Sequences of requests\<close>

text \<open>
  The requests that touch events and tickets, served one after the other, each on
  the database the previous one left.
\<close>

datatype operation =
    CreateEvent request_user event_request
  | Purchase nat request_user nat "int form_field"

datatype outcome = EventCreated event | TicketPurchased ticket | Failed error

fun perform :: "operation \<Rightarrow> database \<Rightarrow> outcome \<times> database" where
  "perform (CreateEvent ru req) db =
     (case EventAPIView_post ru req db of
        (Inl e, db') \<Rightarrow> (Failed e, db')
      | (Inr ev, db') \<Rightarrow> (EventCreated ev, db'))"
| "perform (Purchase now ru pk qf) db =
     (case TicketPurchaseAPIView_post now ru pk qf db of
        (Inl e, db') \<Rightarrow> (Failed e, db')
      | (Inr t, db') \<Rightarrow> (TicketPurchased t, db'))"

fun run :: "operation list \<Rightarrow> database \<Rightarrow> outcome list \<times> database" where
  "run [] db = ([], db)"
| "run (op # ops) db =
     (case perform op db of
        (out, db1) \<Rightarrow> (case run ops db1 of (outs, db2) \<Rightarrow> (out # outs, db2)))"

fun is_purchased :: "outcome \<Rightarrow> bool" where
  "is_purchased (TicketPurchased t) = True"
| "is_purchased (EventCreated ev) = False"
| "is_purchased (Failed e) = False"

fun is_capacity_failure :: "outcome \<Rightarrow> bool" where
  "is_capacity_failure (Failed (ValidationError [OnlyTicketsLeft n])) = True"
| "is_capacity_failure out = False"

text \<open>The sum of \<^verbatim>\<open>quantity\<close> over the tickets of one event.\<close>

definition tickets_of_event :: "nat \<Rightarrow> database \<Rightarrow> int" where
  "tickets_of_event pk db = sum_list (map quantity (filter (\<lambda>t. event_id t = pk) (tickets db)))"

text \<open>The two bounds of the counter, over the whole event table.\<close>

definition sold_nonneg :: "database \<Rightarrow> bool" where
  "sold_nonneg db = list_all (\<lambda>e. 0 \<le> tickets_sold e) (events db)"

definition within_capacity :: "database \<Rightarrow> bool" where
  "within_capacity db =
     list_all (\<lambda>e. 0 \<le> tickets_sold e \<and> tickets_sold e \<le> total_tickets e) (events db)"

text \<open>
  What an operation asks of the two counters of a new event: the \<^verbatim>\<open>tickets_sold\<close>
  it supplies (0 when it supplies none) lies between 0 and its \<^verbatim>\<open>total_tickets\<close>.
  A purchase creates no event, and a creation whose counters do not parse fails.
\<close>

fun counters_in_range :: "operation \<Rightarrow> bool" where
  "counters_in_range (CreateEvent ru req) =
     (case ev_total_tickets req of
        Given t \<Rightarrow>
          (case ev_tickets_sold req of
             Given s \<Rightarrow> 0 \<le> s \<and> s \<le> t
           | Absent \<Rightarrow> 0 \<le> t
           | Malformed \<Rightarrow> True)
      | Absent \<Rightarrow> True
      | Malformed \<Rightarrow> True)"
| "counters_in_range (Purchase now ru pk qf) = True"

section \<open>Example data\<close>

definition alice :: user where
  "alice = \<lparr>user_pk = 1, username = ''alice'', password = ''x'', role = ''User'',
            is_active = True, is_staff = False, is_superuser = False\<rparr>"

definition root :: user where
  "root = \<lparr>user_pk = 2, username = ''root'', password = ''x'', role = ''Admin'',
           is_active = True, is_staff = False, is_superuser = False\<rparr>"

definition eve :: user where
  "eve = \<lparr>user_pk = 3, username = ''eve'', password = ''#pw'', role = ''Admin'',
          is_active = True, is_staff = False, is_superuser = False\<rparr>"

definition eve_request :: register_request where
  "eve_request = \<lparr>reg_username = Given ''eve'', reg_password = Given ''pw'',
                   reg_role = Given ''Admin''\<rparr>"

definition gig :: "int \<Rightarrow> int \<Rightarrow> event" where
  "gig t s = \<lparr>event_pk = 1, name = ''Gig'', date = (2025, 6, 1),
               total_tickets = t, tickets_sold = s\<rparr>"

definition gig_request :: "int form_field \<Rightarrow> int form_field \<Rightarrow> event_request" where
  "gig_request t s = \<lparr>ev_name = Given ''Gig'', ev_date = Given (2025, 6, 1),
                       ev_total_tickets = t, ev_tickets_sold = s\<rparr>"

definition shop :: "int \<Rightarrow> int \<Rightarrow> database" where
  "shop t s = \<lparr>users = [alice, root], events = [gig t s], tickets = []\<rparr>"

lemmas run_defs =
  EventAPIView_post_def EventAPIView_create_def EventSerializer_is_valid_def
  Event_objects_create_def
  TicketPurchaseAPIView_post_def TicketPurchaseAPIView_create_def
  IsAuthenticated_has_permission_def IsRegularUser_has_permission_def
  IsAdminUser_has_permission_def
  TicketPurchaseSerializer_is_valid_def TicketPurchaseSerializer_validate_def
  TicketPurchaseSerializer_create_def transaction_atomic_def Event_objects_get_def
  Event_save_tickets_sold_def Ticket_objects_create_def fresh_pk_def
  shop_def gig_def alice_def root_def gig_request_def empty_database_def Let_def

section \<open>What a purchase does\<close>

lemma Event_objects_get_Some:
  "Event_objects_get pk db = Some ev \<Longrightarrow> ev \<in> set (events db) \<and> event_pk ev = pk"
  unfolding Event_objects_get_def by (auto simp: find_Some_iff)

lemma create_failure_unchanged:
  "TicketPurchaseAPIView_create now usr pk qf db = (Inl e, db') \<Longrightarrow> db' = db"
  by (auto simp: TicketPurchaseAPIView_create_def
      TicketPurchaseSerializer_create_def transaction_atomic_def Let_def
      split: option.splits sum.splits if_splits prod.splits)

lemma post_failure_unchanged:
  "TicketPurchaseAPIView_post now ru pk qf db = (Inl e, db') \<Longrightarrow> db' = db"
  by (auto simp: TicketPurchaseAPIView_post_def dest: create_failure_unchanged
      split: option.splits request_user.splits)

lemma quantity_field_Inr: "quantity_field qf = Inr q \<Longrightarrow> qf = Given q \<and> 1 \<le> q"
  by (cases qf) (auto split: if_splits)

lemma is_valid_Inr:
  "TicketPurchaseSerializer_is_valid ev qf = Inr q \<Longrightarrow>
     qf = Given q \<and> 1 \<le> q \<and> tickets_sold ev + q \<le> total_tickets ev"
  by (auto simp: TicketPurchaseSerializer_is_valid_def TicketPurchaseSerializer_validate_def
      dest: quantity_field_Inr split: sum.splits if_splits)

text \<open>
  The committed transaction, written out: every row with the event's key gets the
  counter read inside the transaction plus the quantity twice, and one ticket is
  appended.
\<close>

lemma serializer_create_success:
  assumes get: "Event_objects_get pk db = Some ev"
    and room: "tickets_sold ev + q \<le> total_tickets ev"
  shows "TicketPurchaseSerializer_create now usr ev q db =
     (Inr \<lparr>ticket_pk = fresh_pk (map ticket_pk (tickets db)), user_id = user_pk usr,
            event_id = pk, quantity = q, purchase_date = now\<rparr>,
      db\<lparr>events := map (\<lambda>r. if event_pk r = pk
                              then r\<lparr>tickets_sold := tickets_sold ev + q + q\<rparr> else r)
                         (events db),
         tickets := tickets db @
           [\<lparr>ticket_pk = fresh_pk (map ticket_pk (tickets db)), user_id = user_pk usr,
             event_id = pk, quantity = q, purchase_date = now\<rparr>]\<rparr>)"
proof -
  from get have pk: "event_pk ev = pk"
    by (simp add: Event_objects_get_Some)
  from get have found: "find (\<lambda>r. event_pk r = pk) (events db) = Some ev"
    by (simp add: Event_objects_get_def)
  show ?thesis
    using room
    by (simp add: TicketPurchaseSerializer_create_def transaction_atomic_def pk get
        Event_save_tickets_sold_def found Ticket_objects_create_def Let_def)
qed

lemma create_success:
  assumes "TicketPurchaseAPIView_create now usr pk qf db = (Inr t, db')"
  shows "\<exists>ev q. Event_objects_get pk db = Some ev \<and> qf = Given q \<and> 1 \<le> q
           \<and> tickets_sold ev + q \<le> total_tickets ev
           \<and> events db' = map (\<lambda>r. if event_pk r = pk
                                     then r\<lparr>tickets_sold := tickets_sold ev + q + q\<rparr> else r)
                                (events db)
           \<and> tickets db' = tickets db @ [t] \<and> quantity t = q \<and> event_id t = pk
           \<and> users db' = users db"
proof -
  from assms obtain ev where get: "Event_objects_get pk db = Some ev"
    by (auto simp: TicketPurchaseAPIView_create_def split: option.splits)
  with assms obtain q where valid: "TicketPurchaseSerializer_is_valid ev qf = Inr q"
    and made: "TicketPurchaseSerializer_create now usr ev q db = (Inr t, db')"
    by (auto simp: TicketPurchaseAPIView_create_def split: sum.splits)
  from valid have q: "qf = Given q" "1 \<le> q" "tickets_sold ev + q \<le> total_tickets ev"
    by (auto dest: is_valid_Inr)
  from made serializer_create_success [OF get q(3), of now usr]
  have "events db' = map (\<lambda>r. if event_pk r = pk
                                then r\<lparr>tickets_sold := tickets_sold ev + q + q\<rparr> else r)
                           (events db)"
    and "tickets db' = tickets db @ [t]" and "quantity t = q" and "event_id t = pk"
    and "users db' = users db"
    by auto
  with get q show ?thesis by blast
qed

text \<open>
  C1 (the code departs from the claim). The claim: a successful purchase of
  \<open>quantity\<close> tickets leaves \<open>tickets_sold\<close> at its old value plus \<open>quantity\<close>.
  The code at one input: the user \<open>alice\<close> buys 1 ticket of an event with 5 tickets
  and none sold; the purchase succeeds, the ticket records quantity 1, and the
  stored counter is 2, the old value plus twice the quantity.
\<close>

theorem purchase_adds_quantity_twice:
  "TicketPurchaseAPIView_post 0 (Authenticated alice) 1 (Given 1) (shop 5 0) =
     (Inr \<lparr>ticket_pk = 1, user_id = 1, event_id = 1, quantity = 1, purchase_date = 0\<rparr>,
      \<lparr>users = [alice, root], events = [gig 5 2],
        tickets = [\<lparr>ticket_pk = 1, user_id = 1, event_id = 1, quantity = 1,
                    purchase_date = 0\<rparr>]\<rparr>)
   \<and> tickets_sold (gig 5 2) = tickets_sold (gig 5 0) + 2"
  by (simp add: run_defs)

text \<open>
  C5. A purchase of \<open>q \<ge> 1\<close> tickets of an existing event \<open>ev\<close> with
  \<open>tickets_sold ev + q > total_tickets ev\<close> fails with the validation error
  "Only \<open>n\<close> tickets left." where \<open>n\<close> is exactly
  \<open>total_tickets ev - tickets_sold ev\<close>, and the database is as before. This holds
  of the handler, for any user the permissions have let through, and so of the whole
  request of an authenticated user with role \<^verbatim>\<open>User\<close>.
\<close>

theorem insufficient_capacity_reports_remaining:
  assumes "Event_objects_get pk db = Some ev"
    and "1 \<le> q"
    and "tickets_sold ev + q > total_tickets ev"
  shows "TicketPurchaseAPIView_create now usr pk (Given q) db =
           (Inl (ValidationError [OnlyTicketsLeft (total_tickets ev - tickets_sold ev)]), db)
         \<and> (role usr = ''User'' \<longrightarrow>
              TicketPurchaseAPIView_post now (Authenticated usr) pk (Given q) db =
                (Inl (ValidationError [OnlyTicketsLeft (total_tickets ev - tickets_sold ev)]),
                 db))"
  using assms
  by (simp add: TicketPurchaseAPIView_post_def IsAuthenticated_has_permission_def
      IsRegularUser_has_permission_def TicketPurchaseAPIView_create_def
      TicketPurchaseSerializer_is_valid_def TicketPurchaseSerializer_validate_def)

theorem insufficient_capacity_reports_remaining_witness:
  "Event_objects_get 1 (shop 5 3) = Some (gig 5 3) \<and> (1::int) \<le> 3
   \<and> tickets_sold (gig 5 3) + 3 > total_tickets (gig 5 3)
   \<and> role alice = ''User''
   \<and> TicketPurchaseAPIView_create 0 alice 1 (Given 3) (shop 5 3) =
       (Inl (ValidationError [OnlyTicketsLeft 2]), shop 5 3)
   \<and> TicketPurchaseAPIView_post 0 (Authenticated alice) 1 (Given 3) (shop 5 3) =
       (Inl (ValidationError [OnlyTicketsLeft 2]), shop 5 3)"
proof -
  have h1: "Event_objects_get 1 (shop 5 3) = Some (gig 5 3)"
    by (simp add: Event_objects_get_def shop_def gig_def)
  have h2: "(1::int) \<le> 3" by simp
  have h3: "tickets_sold (gig 5 3) + 3 > total_tickets (gig 5 3)"
    by (simp add: gig_def)
  have h4: "role alice = ''User''"
    by (simp add: alice_def)
  from insufficient_capacity_reports_remaining [OF h1 h2 h3, of 0 alice] h1 h2 h3 h4
  show ?thesis by (simp add: gig_def)
qed

text \<open>
  C6. A purchase request that fails, for whatever reason (refused by the
  permissions, unknown event, invalid quantity, not enough tickets left, or an error
  inside the transaction), leaves the whole database, and so every \<open>tickets_sold\<close>
  and the ticket table, exactly as it was before the request.
\<close>

theorem failed_purchase_changes_nothing:
  assumes "TicketPurchaseAPIView_post now ru pk qf db = (Inl e, db')"
  shows "db' = db"
  using assms by (rule post_failure_unchanged)

theorem failed_purchase_changes_nothing_witness:
  "TicketPurchaseAPIView_post 0 (Authenticated alice) 1 (Given 6) (shop 5 0)
     = (Inl (ValidationError [OnlyTicketsLeft 5]), shop 5 0)
   \<and> TicketPurchaseAPIView_post 0 (Authenticated alice) 1 (Given 0) (shop 5 0)
     = (Inl (ValidationError [MinValue ''quantity'' 1]), shop 5 0)
   \<and> TicketPurchaseAPIView_post 0 (Authenticated alice) 9999 (Given 1) (shop 5 0)
     = (Inl EventNotFound, shop 5 0)
   \<and> TicketPurchaseAPIView_post 0 (Authenticated root) 1 (Given 1) (shop 5 0)
     = (Inl PermissionDenied, shop 5 0)"
proof -
  have a: "TicketPurchaseAPIView_post 0 (Authenticated alice) 1 (Given 6) (shop 5 0)
     = (Inl (ValidationError [OnlyTicketsLeft 5]),
        snd (TicketPurchaseAPIView_post 0 (Authenticated alice) 1 (Given 6) (shop 5 0)))"
    by (simp add: TicketPurchaseAPIView_post_def TicketPurchaseAPIView_create_def
      IsAuthenticated_has_permission_def IsRegularUser_has_permission_def
      TicketPurchaseSerializer_is_valid_def TicketPurchaseSerializer_validate_def
      Event_objects_get_def shop_def gig_def alice_def)
  have b: "TicketPurchaseAPIView_post 0 (Authenticated alice) 1 (Given 0) (shop 5 0)
     = (Inl (ValidationError [MinValue ''quantity'' 1]),
        snd (TicketPurchaseAPIView_post 0 (Authenticated alice) 1 (Given 0) (shop 5 0)))"
    by (simp add: TicketPurchaseAPIView_post_def TicketPurchaseAPIView_create_def
      IsAuthenticated_has_permission_def IsRegularUser_has_permission_def
      TicketPurchaseSerializer_is_valid_def
      Event_objects_get_def shop_def gig_def alice_def)
  have c: "TicketPurchaseAPIView_post 0 (Authenticated alice) 9999 (Given 1) (shop 5 0)
     = (Inl EventNotFound,
        snd (TicketPurchaseAPIView_post 0 (Authenticated alice) 9999 (Given 1) (shop 5 0)))"
    by (simp add: TicketPurchaseAPIView_post_def TicketPurchaseAPIView_create_def
      IsAuthenticated_has_permission_def IsRegularUser_has_permission_def
      Event_objects_get_def shop_def gig_def alice_def)
  have d: "TicketPurchaseAPIView_post 0 (Authenticated root) 1 (Given 1) (shop 5 0)
     = (Inl PermissionDenied,
        snd (TicketPurchaseAPIView_post 0 (Authenticated root) 1 (Given 1) (shop 5 0)))"
    by (simp add: TicketPurchaseAPIView_post_def
      IsAuthenticated_has_permission_def IsRegularUser_has_permission_def root_def)
  from failed_purchase_changes_nothing [OF a] failed_purchase_changes_nothing [OF b]
    failed_purchase_changes_nothing [OF c] failed_purchase_changes_nothing [OF d] a b c d
  show ?thesis by simp
qed

text \<open>
  C3 (the code departs from the claim). The claim: after the purchases against an
  event have settled, its \<open>tickets_sold\<close> equals the sum of the quantities of its
  tickets. The code at one input: before the purchase the event has no ticket and
  \<open>tickets_sold = 0\<close>; after \<open>alice\<close> has bought 1 ticket, the tickets of the event
  sum to 1 and the stored counter is 2.
\<close>

theorem purchase_breaks_conservation:
  "snd (TicketPurchaseAPIView_post 0 (Authenticated alice) 1 (Given 1) (shop 5 0)) =
      \<lparr>users = [alice, root], events = [gig 5 2],
        tickets = [\<lparr>ticket_pk = 1, user_id = 1, event_id = 1, quantity = 1,
                    purchase_date = 0\<rparr>]\<rparr>
   \<and> tickets_of_event 1 (shop 5 0) = 0 \<and> tickets_sold (gig 5 0) = 0
   \<and> tickets_of_event 1
        (snd (TicketPurchaseAPIView_post 0 (Authenticated alice) 1 (Given 1) (shop 5 0))) = 1
   \<and> tickets_sold (gig 5 2) = 2"
  by (simp add: run_defs tickets_of_event_def)

text \<open>
  C4 (the code departs from the claim). The claim: \<open>N\<close> purchases of one ticket each
  against an event with \<open>T\<close> tickets give exactly \<open>min N T\<close> successes and
  \<open>N - min N T\<close> capacity failures. The code with \<open>T = 2\<close> and \<open>N = 2\<close>, the two
  requests served one after the other: the first succeeds, the second fails with
  "Only 0 tickets left.", so there is 1 success and 1 capacity failure, not 2 and 0.
\<close>

theorem two_buyers_two_tickets_one_success:
  "fst (run [Purchase 0 (Authenticated alice) 1 (Given 1),
             Purchase 1 (Authenticated alice) 1 (Given 1)] (shop 2 0)) =
     [TicketPurchased \<lparr>ticket_pk = 1, user_id = 1, event_id = 1, quantity = 1,
                        purchase_date = 0\<rparr>,
      Failed (ValidationError [OnlyTicketsLeft 0])]
   \<and> length (filter is_purchased
        (fst (run [Purchase 0 (Authenticated alice) 1 (Given 1),
                   Purchase 1 (Authenticated alice) 1 (Given 1)] (shop 2 0)))) = 1
   \<and> length (filter is_capacity_failure
        (fst (run [Purchase 0 (Authenticated alice) 1 (Given 1),
                   Purchase 1 (Authenticated alice) 1 (Given 1)] (shop 2 0)))) = 1
   \<and> min (2::nat) 2 = 2"
  by (simp add: run_defs)

section \<open>Event creation\<close>

lemma event_post_failure_unchanged:
  "EventAPIView_post ru req db = (Inl e, db') \<Longrightarrow> db' = db"
  by (auto simp: EventAPIView_post_def EventAPIView_create_def Event_objects_create_def Let_def
      split: option.splits sum.splits prod.splits)

lemma total_tickets_field_Inr: "total_tickets_field f = Inr t \<Longrightarrow> f = Given t"
  by (cases f) auto

lemma tickets_sold_field_Inr:
  "tickets_sold_field f = Inr s \<Longrightarrow>
     (s = None \<and> f = Absent) \<or> (\<exists>v. s = Some v \<and> f = Given v)"
  by (cases f) auto

lemma event_is_valid_Inr:
  "EventSerializer_is_valid req = Inr (n, d, t, s) \<Longrightarrow>
     name_field (ev_name req) = Inr n \<and> date_field (ev_date req) = Inr d
     \<and> total_tickets_field (ev_total_tickets req) = Inr t
     \<and> tickets_sold_field (ev_tickets_sold req) = Inr s"
  by (auto simp: EventSerializer_is_valid_def split: sum.splits)

lemma event_create_success:
  assumes "EventAPIView_create req db = (Inr ev, db')"
  shows "ev_total_tickets req = Given (total_tickets ev)
         \<and> (ev_tickets_sold req = Absent \<and> tickets_sold ev = 0
            \<or> ev_tickets_sold req = Given (tickets_sold ev))
         \<and> db' = db\<lparr>events := events db @ [ev]\<rparr>"
proof -
  from assms obtain n d t s where valid: "EventSerializer_is_valid req = Inr (n, d, t, s)"
    and made: "Event_objects_create n d t s db = (ev, db')"
    by (auto simp: EventAPIView_create_def split: sum.splits prod.splits)
  from made have ev: "total_tickets ev = t"
      "tickets_sold ev = (case s of None \<Rightarrow> 0 | Some v \<Rightarrow> v)"
      "db' = db\<lparr>events := events db @ [ev]\<rparr>"
    by (auto simp: Event_objects_create_def Let_def)
  from valid have "ev_total_tickets req = Given t"
    and "(s = None \<and> ev_tickets_sold req = Absent)
         \<or> (\<exists>v. s = Some v \<and> ev_tickets_sold req = Given v)"
    by (auto dest!: event_is_valid_Inr dest: total_tickets_field_Inr tickets_sold_field_Inr)
  with ev show ?thesis by auto
qed

lemma event_post_success:
  assumes "EventAPIView_post ru req db = (Inr ev, db')"
  shows "EventAPIView_create req db = (Inr ev, db')"
  using assms by (auto simp: EventAPIView_post_def split: option.splits)

text \<open>
  C7 as the claim states it fails: the administrator \<open>root\<close> posts an event with
  \<^verbatim>\<open>total_tickets = 5\<close> and \<^verbatim>\<open>tickets_sold = 7\<close>; the event is created with
  \<open>tickets_sold = 7\<close>.
\<close>

theorem created_event_tickets_sold_counterexample:
  "EventAPIView_post (Authenticated root) (gig_request (Given 5) (Given 7)) empty_database =
     (Inr (gig 5 7), \<lparr>users = [], events = [gig 5 7], tickets = []\<rparr>)
   \<and> tickets_sold (gig 5 7) \<noteq> 0"
  by (simp add: run_defs)

text \<open>
  C7, amended. An event created through the event endpoint is appended to the
  event table with \<open>tickets_sold\<close> equal to the \<^verbatim>\<open>tickets_sold\<close> field of the request
  when the caller supplies one, and 0 when the request has no such field.
\<close>

theorem created_event_tickets_sold:
  assumes "EventAPIView_post ru req db = (Inr ev, db')"
  shows "tickets_sold ev =
           (case ev_tickets_sold req of Given s \<Rightarrow> s | Absent \<Rightarrow> 0 | Malformed \<Rightarrow> 0)
         \<and> events db' = events db @ [ev]"
  using event_create_success [OF event_post_success [OF assms]] by auto

theorem created_event_tickets_sold_witness:
  "EventAPIView_post (Authenticated root) (gig_request (Given 5) Absent) empty_database
     = (Inr (gig 5 0), \<lparr>users = [], events = [gig 5 0], tickets = []\<rparr>)
   \<and> tickets_sold (gig 5 0) = 0
   \<and> events \<lparr>users = [], events = [gig 5 0], tickets = []\<rparr>
       = events empty_database @ [gig 5 0]"
proof -
  have h: "EventAPIView_post (Authenticated root) (gig_request (Given 5) Absent) empty_database
     = (Inr (gig 5 0), \<lparr>users = [], events = [gig 5 0], tickets = []\<rparr>)"
    by (simp add: run_defs)
  from created_event_tickets_sold [OF h] h show ?thesis
    by (simp add: gig_request_def)
qed

text \<open>
  C8 as the claim states it fails: the administrator \<open>root\<close> posts an event with
  \<^verbatim>\<open>total_tickets = -5\<close>; the request succeeds and the event is stored.
\<close>

theorem negative_total_tickets_counterexample:
  "EventAPIView_post (Authenticated root) (gig_request (Given (- 5)) Absent) empty_database
     = (Inr (gig (- 5) 0), \<lparr>users = [], events = [gig (- 5) 0], tickets = []\<rparr>)
   \<and> total_tickets (gig (- 5) 0) < 0"
  by (simp add: run_defs)

text \<open>
  C8, amended. An event request whose \<^verbatim>\<open>total_tickets\<close> is missing or is not an
  integer fails with a validation error and the database is unchanged; a request
  with any integer \<^verbatim>\<open>total_tickets\<close>, a negative one included, a non-blank name of at
  most 255 characters, a date and an absent or integer \<^verbatim>\<open>tickets_sold\<close> creates the
  event with that \<open>total_tickets\<close>.
\<close>

theorem total_tickets_validation:
  "(ev_total_tickets req = Absent \<or> ev_total_tickets req = Malformed \<longrightarrow>
      (\<exists>ds. EventAPIView_create req db = (Inl (ValidationError ds), db)))
   \<and> (n \<noteq> [] \<and> length n \<le> 255 \<and> s \<noteq> Malformed \<longrightarrow>
      (\<exists>ev. EventAPIView_create
               \<lparr>ev_name = Given n, ev_date = Given d, ev_total_tickets = Given t,
                ev_tickets_sold = s\<rparr> db
             = (Inr ev, db\<lparr>events := events db @ [ev]\<rparr>)
           \<and> total_tickets ev = t))"
proof (intro conjI impI)
  assume "ev_total_tickets req = Absent \<or> ev_total_tickets req = Malformed"
  then show "\<exists>ds. EventAPIView_create req db = (Inl (ValidationError ds), db)"
    by (auto simp: EventAPIView_create_def EventSerializer_is_valid_def split: sum.splits)
next
  assume "n \<noteq> [] \<and> length n \<le> 255 \<and> s \<noteq> Malformed"
  then show "\<exists>ev. EventAPIView_create
               \<lparr>ev_name = Given n, ev_date = Given d, ev_total_tickets = Given t,
                ev_tickets_sold = s\<rparr> db
             = (Inr ev, db\<lparr>events := events db @ [ev]\<rparr>)
           \<and> total_tickets ev = t"
    by (cases s)
       (simp_all add: EventAPIView_create_def EventSerializer_is_valid_def
          Event_objects_create_def Let_def)
qed

theorem total_tickets_validation_witness:
  "EventAPIView_create (gig_request Absent Absent) empty_database
      = (Inl (ValidationError [Required ''total_tickets'']), empty_database)
   \<and> EventAPIView_create (gig_request Malformed Absent) empty_database
      = (Inl (ValidationError [Invalid ''total_tickets'']), empty_database)
   \<and> EventAPIView_create (gig_request (Given (- 5)) Absent) empty_database
      = (Inr (gig (- 5) 0), empty_database\<lparr>events := events empty_database @ [gig (- 5) 0]\<rparr>)"
proof -
  have "\<exists>ds. EventAPIView_create (gig_request Absent Absent) empty_database
           = (Inl (ValidationError ds), empty_database)"
    using total_tickets_validation
            [where req = "gig_request Absent Absent" and db = empty_database]
    by (simp add: gig_request_def)
  moreover have "\<exists>ds. EventAPIView_create (gig_request Malformed Absent) empty_database
           = (Inl (ValidationError ds), empty_database)"
    using total_tickets_validation
            [where req = "gig_request Malformed Absent" and db = empty_database]
    by (simp add: gig_request_def)
  moreover have "\<exists>ev. EventAPIView_create (gig_request (Given (- 5)) Absent) empty_database
             = (Inr ev, empty_database\<lparr>events := events empty_database @ [ev]\<rparr>)
           \<and> total_tickets ev = - 5"
    using total_tickets_validation
            [where n = "''Gig''" and s = Absent and d = "(2025, 6, 1)"
               and t = "- 5" and db = empty_database]
    by (simp add: gig_request_def)
  ultimately show ?thesis
    by (simp add: run_defs)
qed

section \<open>The bounds of the counter along a run\<close>

lemma within_capacity_nonneg: "within_capacity db \<Longrightarrow> sold_nonneg db"
  by (auto simp: within_capacity_def sold_nonneg_def list_all_iff)

lemma perform_sold_nonneg:
  assumes "sold_nonneg db" and "counters_in_range op"
  shows "sold_nonneg (snd (perform op db))"
proof (cases op)
  case (CreateEvent ru req)
  show ?thesis
  proof (cases "EventAPIView_post ru req db")
    case (Pair r db')
    show ?thesis
    proof (cases r)
      case (Inl e)
      with Pair have "db' = db" by (auto dest: event_post_failure_unchanged)
      with Pair Inl CreateEvent assms show ?thesis by simp
    next
      case (Inr ev)
      with Pair have "EventAPIView_create req db = (Inr ev, db')"
        by (auto dest: event_post_success)
      from event_create_success [OF this] assms CreateEvent
      have "0 \<le> tickets_sold ev" and "events db' = events db @ [ev]"
        by auto
      with Pair Inr CreateEvent assms show ?thesis
        by (simp add: sold_nonneg_def)
    qed
  qed
next
  case (Purchase now ru pk qf)
  show ?thesis
  proof (cases "TicketPurchaseAPIView_post now ru pk qf db")
    case (Pair r db')
    show ?thesis
    proof (cases r)
      case (Inl e)
      with Pair have "db' = db" by (auto dest: post_failure_unchanged)
      with Pair Inl Purchase assms show ?thesis by simp
    next
      case (Inr t)
      with Pair obtain usr where
        "TicketPurchaseAPIView_create now usr pk qf db = (Inr t, db')"
        by (auto simp: TicketPurchaseAPIView_post_def
            split: option.splits request_user.splits)
      from create_success [OF this] obtain ev q where
        get: "Event_objects_get pk db = Some ev" and q: "1 \<le> q"
        and evs: "events db' = map (\<lambda>r. if event_pk r = pk
                     then r\<lparr>tickets_sold := tickets_sold ev + q + q\<rparr> else r) (events db)"
        by blast
      from get assms(1) have "0 \<le> tickets_sold ev"
        by (auto simp: sold_nonneg_def list_all_iff dest: Event_objects_get_Some)
      with q evs assms(1) have "sold_nonneg db'"
        by (auto simp: sold_nonneg_def list_all_iff)
      with Pair Inr Purchase show ?thesis by simp
    qed
  qed
qed

lemma perform_within_capacity:
  assumes "within_capacity db" and "counters_in_range op"
    and "\<not> is_purchased (fst (perform op db))"
  shows "within_capacity (snd (perform op db))"
proof (cases op)
  case (CreateEvent ru req)
  show ?thesis
  proof (cases "EventAPIView_post ru req db")
    case (Pair r db')
    show ?thesis
    proof (cases r)
      case (Inl e)
      with Pair have "db' = db" by (auto dest: event_post_failure_unchanged)
      with Pair Inl CreateEvent assms show ?thesis by simp
    next
      case (Inr ev)
      with Pair have "EventAPIView_create req db = (Inr ev, db')"
        by (auto dest: event_post_success)
      from event_create_success [OF this] assms CreateEvent
      have "0 \<le> tickets_sold ev \<and> tickets_sold ev \<le> total_tickets ev"
        and "events db' = events db @ [ev]"
        by auto
      with Pair Inr CreateEvent assms show ?thesis
        by (simp add: within_capacity_def)
    qed
  qed
next
  case (Purchase now ru pk qf)
  show ?thesis
  proof (cases "TicketPurchaseAPIView_post now ru pk qf db")
    case (Pair r db')
    show ?thesis
    proof (cases r)
      case (Inl e)
      with Pair have "db' = db" by (auto dest: post_failure_unchanged)
      with Pair Inl Purchase assms show ?thesis by simp
    next
      case (Inr t)
      with Pair Purchase assms(3) show ?thesis by simp
    qed
  qed
qed

lemma run_Cons_snd: "snd (run (op # ops) db) = snd (run ops (snd (perform op db)))"
  by (simp split: prod.splits)

lemma run_Cons_fst:
  "fst (run (op # ops) db) = fst (perform op db) # fst (run ops (snd (perform op db)))"
  by (simp split: prod.splits)

lemma run_sold_nonneg:
  "sold_nonneg db \<Longrightarrow> list_all counters_in_range ops \<Longrightarrow> sold_nonneg (snd (run ops db))"
proof (induction ops arbitrary: db)
  case Nil
  then show ?case by simp
next
  case (Cons op ops)
  from Cons.prems have "sold_nonneg (snd (perform op db))"
    by (simp add: perform_sold_nonneg)
  with Cons.prems have "sold_nonneg (snd (run ops (snd (perform op db))))"
    by (intro Cons.IH) simp_all
  then show ?case by (simp only: run_Cons_snd)
qed

lemma run_within_capacity:
  "within_capacity db \<Longrightarrow> list_all counters_in_range ops \<Longrightarrow>
   list_all (\<lambda>out. \<not> is_purchased out) (fst (run ops db)) \<Longrightarrow>
   within_capacity (snd (run ops db))"
proof (induction ops arbitrary: db)
  case Nil
  then show ?case by simp
next
  case (Cons op ops)
  from Cons.prems(3) have first: "\<not> is_purchased (fst (perform op db))"
    and rest: "list_all (\<lambda>out. \<not> is_purchased out) (fst (run ops (snd (perform op db))))"
    by (simp_all add: run_Cons_fst del: run.simps)
  from Cons.prems first have "within_capacity (snd (perform op db))"
    by (simp add: perform_within_capacity)
  with Cons.prems rest have "within_capacity (snd (run ops (snd (perform op db))))"
    by (intro Cons.IH) simp_all
  then show ?case by (simp only: run_Cons_snd)
qed

text \<open>
  C2 as the claim states it fails: on the empty database the administrator \<open>root\<close>
  posts an event with \<^verbatim>\<open>total_tickets = -1\<close> and no \<^verbatim>\<open>tickets_sold\<close>; the event is
  stored with \<open>tickets_sold = 0 > total_tickets\<close>.
\<close>

theorem counter_bounds_counterexample:
  "snd (run [CreateEvent (Authenticated root) (gig_request (Given (- 1)) Absent)]
          empty_database)
     = \<lparr>users = [], events = [gig (- 1) 0], tickets = []\<rparr>
   \<and> \<not> within_capacity \<lparr>users = [], events = [gig (- 1) 0], tickets = []\<rparr>"
  by (simp add: run_defs within_capacity_def)

text \<open>
  C2, amended. Start from a database in which every event has
  \<open>0 \<le> tickets_sold \<le> total_tickets\<close>, and serve any sequence of event creations and
  purchases in which every creation supplies counters in that range (\<^verbatim>\<open>tickets_sold\<close>
  counting as 0 when it is not supplied). Then every event has \<open>0 \<le> tickets_sold\<close>
  afterwards, and every event has \<open>tickets_sold \<le> total_tickets\<close> as well when no
  purchase of the sequence succeeded: event creations and failed purchases keep
  both bounds. Nothing is stated about the upper bound after a successful purchase.
\<close>

theorem counter_bounds:
  assumes "within_capacity db" and "list_all counters_in_range ops"
  shows "sold_nonneg (snd (run ops db))
         \<and> (list_all (\<lambda>out. \<not> is_purchased out) (fst (run ops db))
              \<longrightarrow> within_capacity (snd (run ops db)))"
  using assms by (simp add: run_sold_nonneg run_within_capacity within_capacity_nonneg)

theorem counter_bounds_witness:
  "within_capacity empty_database
   \<and> list_all counters_in_range
        [CreateEvent (Authenticated root) (gig_request (Given 2) Absent),
         Purchase 0 (Authenticated alice) 1 (Given 3)]
   \<and> fst (run [CreateEvent (Authenticated root) (gig_request (Given 2) Absent),
                Purchase 0 (Authenticated alice) 1 (Given 3)] empty_database)
       = [EventCreated (gig 2 0), Failed (ValidationError [OnlyTicketsLeft 2])]
   \<and> sold_nonneg (snd (run [CreateEvent (Authenticated root) (gig_request (Given 2) Absent),
                Purchase 0 (Authenticated alice) 1 (Given 3)] empty_database))
   \<and> within_capacity (snd (run [CreateEvent (Authenticated root) (gig_request (Given 2) Absent),
                Purchase 0 (Authenticated alice) 1 (Given 3)] empty_database))"
proof -
  let ?ops = "[CreateEvent (Authenticated root) (gig_request (Given 2) Absent),
               Purchase 0 (Authenticated alice) 1 (Given 3)]"
  have h1: "within_capacity empty_database"
    by (simp add: within_capacity_def empty_database_def)
  have h2: "list_all counters_in_range ?ops"
    by (simp add: gig_request_def)
  have outs: "fst (run ?ops empty_database)
       = [EventCreated (gig 2 0), Failed (ValidationError [OnlyTicketsLeft 2])]"
    by (simp add: run_defs)
  from counter_bounds [OF h1 h2] h1 h2 outs show ?thesis by simp
qed

section \<open>Roles and registration\<close>

text \<open>
  C9. For an authenticated user with role \<^verbatim>\<open>User\<close> a request to create an event
  fails with \<^verbatim>\<open>PermissionDenied\<close>; for an authenticated user with role \<^verbatim>\<open>Admin\<close> a
  purchase request fails with \<^verbatim>\<open>PermissionDenied\<close>; for a caller who is not
  authenticated both fail with \<^verbatim>\<open>NotAuthenticated\<close>. The database is unchanged each
  time.
\<close>

theorem role_gating:
  "(role u = ''User'' \<longrightarrow>
        EventAPIView_post (Authenticated u) req db = (Inl PermissionDenied, db))
   \<and> (role u = ''Admin'' \<longrightarrow>
        TicketPurchaseAPIView_post now (Authenticated u) pk qf db = (Inl PermissionDenied, db))
   \<and> EventAPIView_post AnonymousUser req db = (Inl NotAuthenticated, db)
   \<and> TicketPurchaseAPIView_post now AnonymousUser pk qf db = (Inl NotAuthenticated, db)"
  by (simp add: EventAPIView_post_def TicketPurchaseAPIView_post_def
      IsAuthenticated_has_permission_def IsAdminUser_has_permission_def
      IsRegularUser_has_permission_def)

theorem role_gating_witness:
  "role alice = ''User''
   \<and> EventAPIView_post (Authenticated alice) (gig_request (Given 5) Absent) (shop 5 0)
       = (Inl PermissionDenied, shop 5 0)
   \<and> role root = ''Admin''
   \<and> TicketPurchaseAPIView_post 0 (Authenticated root) 1 (Given 1) (shop 5 0)
       = (Inl PermissionDenied, shop 5 0)
   \<and> EventAPIView_post AnonymousUser (gig_request (Given 5) Absent) (shop 5 0)
       = (Inl NotAuthenticated, shop 5 0)
   \<and> TicketPurchaseAPIView_post 0 AnonymousUser 1 (Given 1) (shop 5 0)
       = (Inl NotAuthenticated, shop 5 0)"
proof -
  have a: "role alice = ''User''" by (simp add: alice_def)
  have r: "role root = ''Admin''" by (simp add: root_def)
  from role_gating [of alice "gig_request (Given 5) Absent" "shop 5 0" 0 1 "Given 1"] a
  have 1: "EventAPIView_post (Authenticated alice) (gig_request (Given 5) Absent) (shop 5 0)
       = (Inl PermissionDenied, shop 5 0)"
    and 3: "EventAPIView_post AnonymousUser (gig_request (Given 5) Absent) (shop 5 0)
       = (Inl NotAuthenticated, shop 5 0)"
    and 4: "TicketPurchaseAPIView_post 0 AnonymousUser 1 (Given 1) (shop 5 0)
       = (Inl NotAuthenticated, shop 5 0)"
    by blast+
  from role_gating [of root "gig_request (Given 5) Absent" "shop 5 0" 0 1 "Given 1"] r
  have 2: "TicketPurchaseAPIView_post 0 (Authenticated root) 1 (Given 1) (shop 5 0)
       = (Inl PermissionDenied, shop 5 0)"
    by blast
  from a r 1 2 3 4 show ?thesis by blast
qed

lemma role_field_Inr:
  "role_field f = Inr r \<Longrightarrow> (f = Absent \<and> r = None) \<or> (\<exists>v. f = Given v \<and> r = Some v)"
  by (cases f) (auto split: if_splits)

lemma register_success:
  assumes "RegisterView_post hasher ru req db = (Inr u, db')"
  shows "role u =
           (case reg_role req of Given r \<Rightarrow> r | Absent \<Rightarrow> ''User'' | Malformed \<Rightarrow> ''User'')
         \<and> db' = db\<lparr>users := users db @ [u]\<rparr>"
proof -
  from assms have made: "RegisterView_create hasher req db = (Inr u, db')"
    by (simp add: RegisterView_post_def AllowAny_has_permission_def)
  then obtain n p r where valid: "UserRegisterSerializer_is_valid db req = Inr (n, p, r)"
    and stored:
      "UserManager_create_user hasher n p (case r of None \<Rightarrow> ''User'' | Some v \<Rightarrow> v) db
         = Inr (u, db')"
    by (auto simp: RegisterView_create_def UserRegisterSerializer_create_def
        split: sum.splits prod.splits)
  from valid have "role_field (reg_role req) = Inr r"
    by (auto simp: UserRegisterSerializer_is_valid_def split: sum.splits)
  then have r: "(reg_role req = Absent \<and> r = None)
                \<or> (\<exists>v. reg_role req = Given v \<and> r = Some v)"
    by (rule role_field_Inr)
  from stored have "role u = (case r of None \<Rightarrow> ''User'' | Some v \<Rightarrow> v)"
    and "db' = db\<lparr>users := users db @ [u]\<rparr>"
    by (auto simp: UserManager_create_user_def Let_def split: if_splits)
  with r show ?thesis by auto
qed

lemma register_admin:
  assumes "n \<noteq> []" and "length n \<le> 150" and "n \<notin> set (map username (users db))"
    and "p \<noteq> []"
  shows "RegisterView_post hasher AnonymousUser
           \<lparr>reg_username = Given n, reg_password = Given p, reg_role = Given ''Admin''\<rparr> db
         = (Inr \<lparr>user_pk = fresh_pk (map user_pk (users db)), username = n,
                 password = hasher p, role = ''Admin'',
                 is_active = True, is_staff = False, is_superuser = False\<rparr>,
            db\<lparr>users := users db @
                 [\<lparr>user_pk = fresh_pk (map user_pk (users db)), username = n,
                   password = hasher p, role = ''Admin'',
                   is_active = True, is_staff = False, is_superuser = False\<rparr>]\<rparr>)"
  using assms
  by (simp add: RegisterView_post_def AllowAny_has_permission_def RegisterView_create_def
      UserRegisterSerializer_is_valid_def UserRegisterSerializer_create_def
      UserManager_create_user_def ROLE_CHOICES_def Let_def)

text \<open>
  C10. Registration asks for no authentication: the answer to a registration request
  is the same for every caller, the anonymous one included. When it creates a user,
  the user's role is the \<^verbatim>\<open>role\<close> field of the request, and \<^verbatim>\<open>User\<close> when the request
  has none, and the user is appended to the user table. In particular an anonymous
  caller who sends a non-blank, free user name of at most 150 characters, a non-blank
  password and the role \<^verbatim>\<open>Admin\<close> gets an account with role \<^verbatim>\<open>Admin\<close>, and that
  account passes the permission check of event creation.
\<close>

theorem registration_takes_role_from_request:
  "RegisterView_post hasher ru req db = RegisterView_post hasher AnonymousUser req db
   \<and> (RegisterView_post hasher ru req db = (Inr u, db') \<longrightarrow>
        role u =
          (case reg_role req of Given r \<Rightarrow> r | Absent \<Rightarrow> ''User'' | Malformed \<Rightarrow> ''User'')
        \<and> db' = db\<lparr>users := users db @ [u]\<rparr>)
   \<and> (n \<noteq> [] \<and> length n \<le> 150 \<and> n \<notin> set (map username (users db)) \<and> p \<noteq> [] \<longrightarrow>
        (\<exists>a. RegisterView_post hasher AnonymousUser
                \<lparr>reg_username = Given n, reg_password = Given p, reg_role = Given ''Admin''\<rparr> db
              = (Inr a, db\<lparr>users := users db @ [a]\<rparr>)
            \<and> role a = ''Admin''
            \<and> check_permissions [IsAuthenticated_has_permission, IsAdminUser_has_permission]
                 ''POST'' (Authenticated a) = None))"
proof (intro conjI impI)
  show "RegisterView_post hasher ru req db = RegisterView_post hasher AnonymousUser req db"
    by (simp add: RegisterView_post_def AllowAny_has_permission_def)
next
  assume "RegisterView_post hasher ru req db = (Inr u, db')"
  from register_success [OF this]
  show "role u =
          (case reg_role req of Given r \<Rightarrow> r | Absent \<Rightarrow> ''User'' | Malformed \<Rightarrow> ''User'')"
    and "db' = db\<lparr>users := users db @ [u]\<rparr>"
    by simp_all
next
  assume "n \<noteq> [] \<and> length n \<le> 150 \<and> n \<notin> set (map username (users db)) \<and> p \<noteq> []"
  then have "RegisterView_post hasher AnonymousUser
           \<lparr>reg_username = Given n, reg_password = Given p, reg_role = Given ''Admin''\<rparr> db
         = (Inr \<lparr>user_pk = fresh_pk (map user_pk (users db)), username = n,
                 password = hasher p, role = ''Admin'',
                 is_active = True, is_staff = False, is_superuser = False\<rparr>,
            db\<lparr>users := users db @
                 [\<lparr>user_pk = fresh_pk (map user_pk (users db)), username = n,
                   password = hasher p, role = ''Admin'',
                   is_active = True, is_staff = False, is_superuser = False\<rparr>]\<rparr>)"
    by (simp add: register_admin)
  then show "\<exists>a. RegisterView_post hasher AnonymousUser
                \<lparr>reg_username = Given n, reg_password = Given p, reg_role = Given ''Admin''\<rparr> db
              = (Inr a, db\<lparr>users := users db @ [a]\<rparr>)
            \<and> role a = ''Admin''
            \<and> check_permissions [IsAuthenticated_has_permission, IsAdminUser_has_permission]
                 ''POST'' (Authenticated a) = None"
    by (simp add: IsAuthenticated_has_permission_def IsAdminUser_has_permission_def)
qed

theorem registration_takes_role_from_request_witness:
  "RegisterView_post (\<lambda>p. CHR ''#'' # p) AnonymousUser eve_request (shop 5 0)
     = (Inr eve, (shop 5 0)\<lparr>users := users (shop 5 0) @ [eve]\<rparr>)
   \<and> role eve = ''Admin''
   \<and> EventAPIView_post (Authenticated eve) (gig_request (Given 9) Absent) empty_database
     = (Inr (gig 9 0), \<lparr>users = [], events = [gig 9 0], tickets = []\<rparr>)"
proof -
  have made: "RegisterView_post (\<lambda>p. CHR ''#'' # p) AnonymousUser eve_request (shop 5 0)
     = (Inr eve, (shop 5 0)\<lparr>users := users (shop 5 0) @ [eve]\<rparr>)"
    by (simp add: RegisterView_post_def AllowAny_has_permission_def RegisterView_create_def
      UserRegisterSerializer_is_valid_def UserRegisterSerializer_create_def
      UserManager_create_user_def ROLE_CHOICES_def Let_def eve_request_def eve_def
      shop_def alice_def root_def fresh_pk_def)
  from registration_takes_role_from_request
         [where hasher = "\<lambda>p. CHR ''#'' # p" and ru = AnonymousUser and req = eve_request
            and db = "shop 5 0" and u = eve
            and db' = "(shop 5 0)\<lparr>users := users (shop 5 0) @ [eve]\<rparr>"] made
  have "role eve = ''Admin''"
    by (simp add: eve_request_def)
  moreover have
    "EventAPIView_post (Authenticated eve) (gig_request (Given 9) Absent) empty_database
     = (Inr (gig 9 0), \<lparr>users = [], events = [gig 9 0], tickets = []\<rparr>)"
    by (simp add: run_defs eve_def)
  ultimately show ?thesis using made by simp
qed

end
